theory Spec2Isabelle
  imports Complex_Main "HOL-Library.Multiset"
begin

section \<open>JavaScript values shared by the models\<close>

text \<open>
  A thrown value is an \<^verbatim>\<open>Error\<close> object: its \<^verbatim>\<open>name\<close> and its \<^verbatim>\<open>message\<close>.
  The client SDK (\<^verbatim>\<open>@mysten/sui.js\<close>) and \<^verbatim>\<open>fetch\<close> throw instances of \<^verbatim>\<open>Error\<close>,
  \<^verbatim>\<open>TypeError\<close> and subclasses of their own.
\<close>

datatype js_error = JsError (err_name: string) (err_message: string)

text \<open>
  \<^verbatim>\<open>String(err)\<close> on an Error object runs \<^verbatim>\<open>Error.prototype.toString\<close>: the message when
  the name is empty, the name when the message is empty, and \<^verbatim>\<open>name + ": " + message\<close>
  otherwise.
\<close>

definition String_js :: "js_error \<Rightarrow> string" where
  "String_js err =
     (if err_name err = [] then err_message err
      else if err_message err = [] then err_name err
      else err_name err @ '': '' @ err_message err)"

text \<open>
  The settled state of a promise. An \<^verbatim>\<open>async\<close> function returns one: \<open>Fulfilled\<close> with
  its return value, or \<open>Rejected\<close> with what it threw.
\<close>

datatype 'a promise = Fulfilled 'a | Rejected js_error

text \<open>The operator \<^verbatim>\<open>a ?? b\<close>: \<open>b\<close> when \<open>a\<close> is \<^verbatim>\<open>undefined\<close> or \<^verbatim>\<open>null\<close>.\<close>

definition nullish :: "'a option \<Rightarrow> 'a \<Rightarrow> 'a" where
  "nullish a b = (case a of None \<Rightarrow> b | Some v \<Rightarrow> v)"

text \<open>
  A page of a paginated listing of the remote client (\<^verbatim>\<open>PaginatedCoins\<close>,
  \<^verbatim>\<open>DynamicFieldPage\<close>).
\<close>

record 'a page =
  data :: "'a list"
  nextCursor :: "string option"
  hasNextPage :: bool

section \<open>\<^verbatim>\<open>removeLeadingZeros\<close>\<close>

text \<open>
  \<^verbatim>\<open>address.replaceAll(/0x0+/g, "0x")\<close>. The scan goes left to right. Where the pattern
  matches (the characters \<^verbatim>\<open>0x0\<close>, then greedily every following \<^verbatim>\<open>0\<close>), the match is
  replaced by \<^verbatim>\<open>0x\<close> and the scan resumes after the match; elsewhere the character is
  copied and the scan moves on by one.
\<close>

function removeLeadingZeros :: "string \<Rightarrow> string" where
  "removeLeadingZeros [] = []"
| "removeLeadingZeros (c # cs) =
     (if take 3 (c # cs) = ''0x0''
      then ''0x'' @ removeLeadingZeros (dropWhile (\<lambda>d. d = CHR ''0'') (drop 2 cs))
      else c # removeLeadingZeros cs)"
  by pat_completeness auto
termination
  by (relation "measure length") (auto intro: le_less_trans [OF length_dropWhile_le])

section \<open>\<^verbatim>\<open>testRpcLatency\<close>\<close>

record RpcTestResult =
  endpoint :: string
  latency :: "real option"
  error :: "string option"

datatype testType = getLatestSuiSystemState | getAllBalances | getAllCoins | getObject

text \<open>The argument object of \<^verbatim>\<open>testRpcLatency\<close>; the two optional fields may be absent.\<close>

record testRpcLatency_args =
  endpoints :: "string list"
  testType :: "testType option"
  objectOrAddress :: "string option"

text \<open>The remote call a probe issues, with its argument.\<close>

datatype rpc_request =
    LatestSuiSystemState
  | AllBalances string
  | AllCoins string
  | Object string

text \<open>
  What happens to one probe: the awaited call returns, with the readings of
  \<^verbatim>\<open>performance.now()\<close> taken before the call and after it, or something in the
  \<^verbatim>\<open>try\<close> block throws.
\<close>

datatype call_outcome = Resolves real real | Throws js_error

text \<open>
  \<^verbatim>\<open>new SuiClient({ url })\<close> for the endpoint at position \<open>i\<close> of the list is
  \<open>net i url\<close>: every position has a client of its own, also when two positions hold
  the same url.
\<close>

type_synonym SuiClient = "rpc_request \<Rightarrow> call_outcome"
type_synonym network = "nat \<Rightarrow> string \<Rightarrow> SuiClient"

fun request_of :: "testType \<Rightarrow> string option \<Rightarrow> rpc_request" where
  "request_of getLatestSuiSystemState oa = LatestSuiSystemState"
| "request_of getAllBalances oa =
     AllBalances (nullish oa ''0xb871a42470b59c7184033a688f883cf24eb5e66eae1db62319bab27adb30d031'')"
| "request_of getAllCoins oa =
     AllCoins (nullish oa ''0xb871a42470b59c7184033a688f883cf24eb5e66eae1db62319bab27adb30d031'')"
| "request_of getObject oa = Object (nullish oa ''0x2'')"

text \<open>The \<^verbatim>\<open>async (url) => { try { ... } catch (err) { ... } }\<close> mapped over the endpoints.\<close>

definition probe :: "testType \<Rightarrow> string option \<Rightarrow> SuiClient \<Rightarrow> string \<Rightarrow> RpcTestResult promise" where
  "probe tt oa suiClient u =
     (case suiClient (request_of tt oa) of
        Resolves startTime now \<Rightarrow>
          Fulfilled \<lparr>endpoint = u, latency = Some (now - startTime), error = None\<rparr>
      | Throws err \<Rightarrow>
          Fulfilled \<lparr>endpoint = u, latency = None, error = Some (String_js err)\<rparr>)"

text \<open>
  \<^verbatim>\<open>Promise.allSettled\<close> never rejects: it fulfils with the settled state of every
  promise, in the order of the list.
\<close>

definition allSettled :: "'a promise list \<Rightarrow> 'a promise list promise" where
  "allSettled promises = Fulfilled promises"

text \<open>The callback of \<^verbatim>\<open>results.map\<close>.\<close>

definition settled_result :: "RpcTestResult promise \<Rightarrow> RpcTestResult" where
  "settled_result result =
     (case result of
        Fulfilled v \<Rightarrow> v
      | Rejected reason \<Rightarrow>
          \<lparr>endpoint = ''Unknown endpoint'', latency = None,
           error = Some (if err_message reason \<noteq> [] then err_message reason
                         else ''Unknown error'')\<rparr>)"

definition testRpcLatency :: "network \<Rightarrow> testRpcLatency_args \<Rightarrow> RpcTestResult list promise" where
  "testRpcLatency net args =
     (let tt = nullish (testType args) getLatestSuiSystemState;
          promises = map (\<lambda>(i, u). probe tt (objectOrAddress args) (net i u) u)
                         (enumerate 0 (endpoints args))
      in case allSettled promises of
           Fulfilled results \<Rightarrow> Fulfilled (map settled_result results)
         | Rejected e \<Rightarrow> Rejected e)"

text \<open>
  The array the promise of \<^verbatim>\<open>testRpcLatency\<close> is fulfilled with (lemma
  \<open>testRpcLatency_eq\<close>): the result of each probe, position by position.
\<close>

definition probe_all :: "network \<Rightarrow> testRpcLatency_args \<Rightarrow> RpcTestResult list" where
  "probe_all net args =
     map (\<lambda>(i, u). settled_result (probe (nullish (testType args) getLatestSuiSystemState)
                      (objectOrAddress args) (net i u) u))
         (enumerate 0 (endpoints args))"

subsection \<open>The caller: \<^verbatim>\<open>runTest\<close> of \<^verbatim>\<open>PageHome.tsx\<close>\<close>

record RpcUrl =
  url :: string
  enabled :: bool

text \<open>The comparator \<^verbatim>\<open>(a, b) => (a.latency ?? 99999) - (b.latency ?? 99999)\<close>.\<close>

definition compareLatency :: "RpcTestResult \<Rightarrow> RpcTestResult \<Rightarrow> real" where
  "compareLatency a b = nullish (latency a) 99999 - nullish (latency b) 99999"

text \<open>
  \<^verbatim>\<open>Array.prototype.sort(compareFn)\<close> is a stable sort: with a comparator that is a
  consistent order, every conforming engine returns the list that stable insertion
  returns, which is the model.
\<close>

fun insert_sorted :: "('a \<Rightarrow> 'a \<Rightarrow> real) \<Rightarrow> 'a \<Rightarrow> 'a list \<Rightarrow> 'a list" where
  "insert_sorted cmp x [] = [x]"
| "insert_sorted cmp x (y # ys) =
     (if cmp x y \<le> 0 then x # y # ys else y # insert_sorted cmp x ys)"

definition js_sort :: "('a \<Rightarrow> 'a \<Rightarrow> real) \<Rightarrow> 'a list \<Rightarrow> 'a list" where
  "js_sort cmp xs = foldr (insert_sorted cmp) xs []"

text \<open>
  \<^verbatim>\<open>runTest\<close> calls the latency test (imported by the page under the name
  \<^verbatim>\<open>measureRpcLatency\<close>) on the enabled endpoints with the default test type, sorts the
  array it gets, and stores it as the results the page shows.
\<close>

definition runTest :: "network \<Rightarrow> RpcUrl list \<Rightarrow> RpcTestResult list promise" where
  "runTest net rpcs =
     (case testRpcLatency net
             \<lparr>endpoints = map url (filter enabled rpcs), testType = None, objectOrAddress = None\<rparr> of
        Fulfilled newResults \<Rightarrow> Fulfilled (js_sort compareLatency newResults)
      | Rejected e \<Rightarrow> Rejected e)"

subsection \<open>The ordering the specification asks of the result\<close>

definition is_Latency :: "RpcTestResult \<Rightarrow> bool" where
  "is_Latency r = (latency r \<noteq> None)"

definition is_Failure :: "RpcTestResult \<Rightarrow> bool" where
  "is_Failure r = (error r \<noteq> None)"

text \<open>The latencies of the Latency results, in the order of the list, are ascending.\<close>

definition latency_ascending :: "RpcTestResult list \<Rightarrow> bool" where
  "latency_ascending rs = sorted (List.map_filter latency rs)"

text \<open>Once a Failure result appears, no Latency result follows.\<close>

fun failures_last :: "RpcTestResult list \<Rightarrow> bool" where
  "failures_last [] = True"
| "failures_last (r # rs) =
     (if is_Failure r then list_all (\<lambda>s. \<not> is_Latency s) rs else failures_last rs)"

definition sorted_by_latency :: "RpcTestResult list \<Rightarrow> bool" where
  "sorted_by_latency rs = (latency_ascending rs \<and> failures_last rs)"

text \<open>The scenario of the specification: A answers in 50 ms, B errors, C answers in 10 ms.\<close>

definition net_abc :: network where
  "net_abc i u request =
     (if u = ''A'' then Resolves 1000 1050
      else if u = ''C'' then Resolves 1000 1010
      else Throws (JsError ''TypeError'' ''fetch failed''))"

definition args_abc :: testRpcLatency_args where
  "args_abc = \<lparr>endpoints = [''A'', ''B'', ''C''], testType = Some getLatestSuiSystemState,
               objectOrAddress = None\<rparr>"

text \<open>
  The number the comparator of \<^verbatim>\<open>runTest\<close> compares results by.
\<close>

definition latency_key :: "RpcTestResult \<Rightarrow> real" where
  "latency_key r = nullish (latency r) 99999"



text \<open>
  The endpoints of the scenario as the page holds them, with a disabled endpoint D among them.
\<close>

definition rpcs_abc :: "RpcUrl list" where
  "rpcs_abc = [\<lparr>url = ''A'', enabled = True\<rparr>, \<lparr>url = ''D'', enabled = False\<rparr>,
               \<lparr>url = ''B'', enabled = True\<rparr>, \<lparr>url = ''C'', enabled = True\<rparr>]"

text \<open>
  The same endpoint listed twice: the first probe answers in 7 ms, the second fails.
\<close>

definition net_dup :: network where
  "net_dup i u request =
     (if i = 0 then Resolves 200 207 else Throws (JsError ''Error'' ''timeout''))"

definition args_dup :: testRpcLatency_args where
  "args_dup = \<lparr>endpoints = [''A'', ''A''], testType = None, objectOrAddress = None\<rparr>"

section \<open>\<^verbatim>\<open>getCoinOfValue\<close>\<close>

record CoinStruct =
  coinObjectId :: string
  balance :: nat

text \<open>
  The transaction block and the remote client are collaborators outside the repository.
  The model records every call \<^verbatim>\<open>getCoinOfValue\<close> makes on them, in order, and
  gives each call of the transaction block the handle that names it: \<^verbatim>\<open>txb.gas\<close>,
  the input made by \<^verbatim>\<open>txb.pure(v)\<close>, the input made by \<^verbatim>\<open>txb.object(id)\<close>, and the
  result of \<^verbatim>\<open>txb.splitCoins(coin, amounts)\<close>.
\<close>

datatype TransactionArgument = GasCoin | PureInput int | ObjectInput string

datatype TransactionResult = SplitCoinsResult TransactionArgument "TransactionArgument list"

datatype call =
    Client_getCoins string string "string option"
  | Txb_pure int
  | Txb_object string
  | Txb_mergeCoins TransactionArgument "string list"
  | Txb_splitCoins TransactionArgument "TransactionArgument list"

text \<open>\<^verbatim>\<open>suiClient.getCoins({ owner, coinType, cursor })\<close>: a page, or the call fails.\<close>

type_synonym CoinsClient = "string \<Rightarrow> string \<Rightarrow> string option \<Rightarrow> js_error + CoinStruct page"

definition client_getCoins ::
  "CoinsClient \<Rightarrow> string \<Rightarrow> string \<Rightarrow> string option \<Rightarrow> call list
     \<Rightarrow> (js_error + CoinStruct page) \<times> call list" where
  "client_getCoins suiClient ownerAddress ct cur calls =
     (suiClient ownerAddress ct cur, calls @ [Client_getCoins ownerAddress ct cur])"

definition txb_pure :: "int \<Rightarrow> call list \<Rightarrow> TransactionArgument \<times> call list" where
  "txb_pure v calls = (PureInput v, calls @ [Txb_pure v])"

definition txb_object :: "string \<Rightarrow> call list \<Rightarrow> TransactionArgument \<times> call list" where
  "txb_object objId calls = (ObjectInput objId, calls @ [Txb_object objId])"

definition txb_mergeCoins :: "TransactionArgument \<Rightarrow> string list \<Rightarrow> call list \<Rightarrow> call list" where
  "txb_mergeCoins destination sources calls = calls @ [Txb_mergeCoins destination sources]"

definition txb_splitCoins ::
  "TransactionArgument \<Rightarrow> TransactionArgument list \<Rightarrow> call list \<Rightarrow> TransactionResult \<times> call list" where
  "txb_splitCoins coin amounts calls =
     (SplitCoinsResult coin amounts, calls @ [Txb_splitCoins coin amounts])"

text \<open>
  The function takes the calls recorded so far and returns its settled promise with the
  calls recorded at its end. Destructuring an empty \<^verbatim>\<open>paginatedCoins.data\<close> leaves
  \<^verbatim>\<open>firstCoin\<close> undefined, and reading \<^verbatim>\<open>firstCoin.coinObjectId\<close> throws a TypeError.
\<close>

definition getCoinOfValue ::
  "CoinsClient \<Rightarrow> call list \<Rightarrow> string \<Rightarrow> string \<Rightarrow> int \<Rightarrow> TransactionResult promise \<times> call list" where
  "getCoinOfValue suiClient calls ownerAddress coinType coinValue =
     (let coinType' = removeLeadingZeros coinType in
      if coinType' = ''0x2::sui::SUI'' then
        (let (amount, calls1) = txb_pure coinValue calls;
             (coinOfValue, calls2) = txb_splitCoins GasCoin [amount] calls1
         in (Fulfilled coinOfValue, calls2))
      else
        (let (response, calls1) = client_getCoins suiClient ownerAddress coinType' None calls in
         case response of
           Inl err \<Rightarrow> (Rejected err, calls1)
         | Inr paginatedCoins \<Rightarrow>
             (case data paginatedCoins of
                [] \<Rightarrow> (Rejected (JsError ''TypeError'' ''Cannot read properties of undefined''), calls1)
              | firstCoin # otherCoins \<Rightarrow>
                  (let (firstCoinInput, calls2) = txb_object (coinObjectId firstCoin) calls1;
                       calls3 = (if length otherCoins > 0
                               then txb_mergeCoins firstCoinInput (map coinObjectId otherCoins) calls2
                               else calls2);
                       (amount, calls4) = txb_pure coinValue calls3;
                       (coinOfValue, calls5) = txb_splitCoins firstCoinInput [amount] calls4
                   in (Fulfilled coinOfValue, calls5)))))"

fun is_getCoins :: "call \<Rightarrow> bool" where
  "is_getCoins (Client_getCoins ownerAddress ct cur) = True"
| "is_getCoins c = False"

text \<open>The object ids a call of the transaction block names.\<close>

fun object_ids :: "call \<Rightarrow> string list" where
  "object_ids (Txb_object objId) = [objId]"
| "object_ids (Txb_mergeCoins destination sources) = sources"
| "object_ids c = []"

text \<open>
  Remote clients for the examples: a stub whose \<^verbatim>\<open>getCoins\<close> always fails, an owner
  with three coins on the first page and one more on a second page, and an owner with a
  single coin.
\<close>

definition stub_no_getCoins :: CoinsClient where
  "stub_no_getCoins ownerAddress ct cur = Inl (JsError ''Error'' ''getCoins must not be called'')"

definition coins_two_pages :: CoinsClient where
  "coins_two_pages ownerAddress ct cur =
     (if cur = None then
        Inr \<lparr>data = [\<lparr>coinObjectId = ''0xa1'', balance = 5\<rparr>, \<lparr>coinObjectId = ''0xa2'', balance = 7\<rparr>,
                     \<lparr>coinObjectId = ''0xa3'', balance = 1\<rparr>],
             nextCursor = Some ''0xa3'', hasNextPage = True\<rparr>
      else
        Inr \<lparr>data = [\<lparr>coinObjectId = ''0xb1'', balance = 100\<rparr>],
             nextCursor = None, hasNextPage = False\<rparr>)"

definition coins_single :: CoinsClient where
  "coins_single ownerAddress ct cur =
     Inr \<lparr>data = [\<lparr>coinObjectId = ''0xa1'', balance = 5\<rparr>], nextCursor = None, hasNextPage = False\<rparr>"

section \<open>\<^verbatim>\<open>fetchAllDynamicFields\<close>\<close>

text \<open>\<^verbatim>\<open>suiClient.getDynamicFields({ parentId, cursor })\<close>: a page, or the call fails.\<close>

type_synonym 'a FieldsClient = "string \<Rightarrow> string option \<Rightarrow> js_error + 'a page"

text \<open>
  The \<^verbatim>\<open>while (hasNextPage)\<close> loop, on its variables \<^verbatim>\<open>allFieldsInfo\<close>,
  \<^verbatim>\<open>hasNextPage\<close> and \<^verbatim>\<open>cursor\<close>, and on the list of the cursors requested so far.
  A server that always reports a next page keeps the loop running for ever: the value is
  \<open>None\<close>. The pause between requests and the console output change no value and are
  left out.
\<close>

partial_function (option) fetch_loop ::
  "'a FieldsClient \<Rightarrow> string \<Rightarrow> 'a list \<Rightarrow> bool \<Rightarrow> string option \<Rightarrow> string option list
     \<Rightarrow> ('a list promise \<times> string option list) option" where
  "fetch_loop suiClient parentId allFieldsInfo hasNext cur requested =
     (if hasNext then
        (case suiClient parentId cur of
           Inl err \<Rightarrow> Some (Rejected err, requested @ [cur])
         | Inr p \<Rightarrow>
             fetch_loop suiClient parentId (allFieldsInfo @ data p) (hasNextPage p) (nextCursor p)
               (requested @ [cur]))
      else Some (Fulfilled allFieldsInfo, requested))"

definition fetchAllDynamicFields ::
  "'a FieldsClient \<Rightarrow> string \<Rightarrow> ('a list promise \<times> string option list) option" where
  "fetchAllDynamicFields suiClient parentId = fetch_loop suiClient parentId [] True None []"

text \<open>
  The server holds the pages \<open>ps\<close> of a parent, in order, from the cursor \<open>cur\<close> on:
  each request returns the next page, every page but the last reports that more pages
  remain and hands out the cursor of its successor, and the last page reports none.
\<close>

fun serves :: "'a FieldsClient \<Rightarrow> string \<Rightarrow> string option \<Rightarrow> 'a page list \<Rightarrow> bool" where
  "serves suiClient parentId cur [] = False"
| "serves suiClient parentId cur [p] = (suiClient parentId cur = Inr p \<and> \<not> hasNextPage p)"
| "serves suiClient parentId cur (p # q # ps) =
     (suiClient parentId cur = Inr p \<and> hasNextPage p
      \<and> serves suiClient parentId (nextCursor p) (q # ps))"

text \<open>The cursors of the requests that fetch the pages \<open>ps\<close>, the first one absent.\<close>

definition cursors_of :: "'a page list \<Rightarrow> string option list" where
  "cursors_of ps = None # map nextCursor (butlast ps)"

text \<open>
  A parent whose dynamic fields come in three pages of sizes 2, 2 and 1.
\<close>

definition fields_221 :: "nat FieldsClient" where
  "fields_221 parentId cur =
     (if cur = None then Inr \<lparr>data = [1, 2], nextCursor = Some ''c1'', hasNextPage = True\<rparr>
      else if cur = Some ''c1'' then Inr \<lparr>data = [3, 4], nextCursor = Some ''c2'', hasNextPage = True\<rparr>
      else if cur = Some ''c2'' then Inr \<lparr>data = [5], nextCursor = None, hasNextPage = False\<rparr>
      else Inl (JsError ''JsonRpcError'' ''invalid cursor''))"

definition pages_221 :: "nat page list" where
  "pages_221 =
     [\<lparr>data = [1, 2], nextCursor = Some ''c1'', hasNextPage = True\<rparr>,
      \<lparr>data = [3, 4], nextCursor = Some ''c2'', hasNextPage = True\<rparr>,
      \<lparr>data = [5], nextCursor = None, hasNextPage = False\<rparr>]"

section \<open>Properties of \<^verbatim>\<open>removeLeadingZeros\<close>\<close>

lemma removeLeadingZeros_take1: "take (Suc 0) (removeLeadingZeros s) = take (Suc 0) s"
  by (cases s) auto

lemma no_zero_after_dropWhile: "take (Suc 0) (dropWhile (\<lambda>d. d = CHR ''0'') s) \<noteq> ''0''"
  by (induction s) auto

lemma removeLeadingZeros_match:
  "take 3 (c # cs) = ''0x0'' \<Longrightarrow>
   removeLeadingZeros (c # cs) = ''0x'' @ removeLeadingZeros (dropWhile (\<lambda>d. d = CHR ''0'') (drop 2 cs))"
  by (simp only: removeLeadingZeros.simps if_True simp_thms)

lemma removeLeadingZeros_no_match:
  "take 3 (c # cs) \<noteq> ''0x0'' \<Longrightarrow> removeLeadingZeros (c # cs) = c # removeLeadingZeros cs"
  by (simp only: removeLeadingZeros.simps if_False simp_thms)

text \<open>Rewriting the rest of the string neither creates nor destroys a match at its front.\<close>

lemma match_preserved:
  "take 3 (c # removeLeadingZeros cs) = ''0x0'' \<longleftrightarrow> take 3 (c # cs) = ''0x0''"
proof (cases cs)
  case Nil
  then show ?thesis by simp
next
  case (Cons d ds)
  show ?thesis
  proof (cases "d = CHR ''x''")
    case True
    with Cons removeLeadingZeros_take1 [of ds] show ?thesis
      by (cases ds; cases "removeLeadingZeros ds") auto
  next
    case False
    with Cons show ?thesis by auto
  qed
qed

lemma removeLeadingZeros_idem: "removeLeadingZeros (removeLeadingZeros s) = removeLeadingZeros s"
proof (induction s rule: removeLeadingZeros.induct)
  case 1
  then show ?case by simp
next
  case (2 c cs)
  show ?case
  proof (cases "take 3 (c # cs) = ''0x0''")
    case True
    define t where "t = dropWhile (\<lambda>d. d = CHR ''0'') (drop 2 cs)"
    have ih: "removeLeadingZeros (removeLeadingZeros t) = removeLeadingZeros t"
      unfolding t_def by (rule 2(1) [OF True])
    have nz: "take (Suc 0) (removeLeadingZeros t) \<noteq> ''0''"
      unfolding removeLeadingZeros_take1 t_def by (rule no_zero_after_dropWhile)
    have out: "removeLeadingZeros (c # cs) = CHR ''0'' # CHR ''x'' # removeLeadingZeros t"
      unfolding t_def using removeLeadingZeros_match [OF True] by simp
    have "take 3 (CHR ''0'' # CHR ''x'' # removeLeadingZeros t) \<noteq> ''0x0''"
      using nz by (cases "removeLeadingZeros t") auto
    then have "removeLeadingZeros (CHR ''0'' # CHR ''x'' # removeLeadingZeros t)
            = CHR ''0'' # removeLeadingZeros (CHR ''x'' # removeLeadingZeros t)"
      by (rule removeLeadingZeros_no_match)
    also have "removeLeadingZeros (CHR ''x'' # removeLeadingZeros t)
            = CHR ''x'' # removeLeadingZeros (removeLeadingZeros t)"
      by (rule removeLeadingZeros_no_match) simp
    finally show ?thesis unfolding out ih .
  next
    case False
    have ih: "removeLeadingZeros (removeLeadingZeros cs) = removeLeadingZeros cs"
      by (rule 2(2) [OF False])
    have out: "removeLeadingZeros (c # cs) = c # removeLeadingZeros cs"
      by (rule removeLeadingZeros_no_match [OF False])
    have "take 3 (c # removeLeadingZeros cs) \<noteq> ''0x0''"
      using False unfolding match_preserved .
    then have "removeLeadingZeros (c # removeLeadingZeros cs)
            = c # removeLeadingZeros (removeLeadingZeros cs)"
      by (rule removeLeadingZeros_no_match)
    then show ?thesis unfolding out ih .
  qed
qed

lemma dropWhile_zeros: "dropWhile (\<lambda>d. d = CHR ''0'') (replicate n CHR ''0'') = []"
  by (induction n) auto

text \<open>
  C8. The 64-digit address with 62 leading zeros and then 2 is normalized to \<^verbatim>\<open>0x2\<close>,
  \<^verbatim>\<open>0x2\<close> is normalized to itself, and normalizing twice is normalizing once, for every
  string.
\<close>

theorem removeLeadingZeros_normalizes:
  "removeLeadingZeros (''0x'' @ replicate 62 CHR ''0'' @ ''2'') = ''0x2''
   \<and> removeLeadingZeros ''0x2'' = ''0x2''
   \<and> removeLeadingZeros (removeLeadingZeros x) = removeLeadingZeros x"
proof -
  have "removeLeadingZeros (''0x'' @ replicate 62 CHR ''0'' @ ''2'') = ''0x2''"
    by code_simp
  moreover have "removeLeadingZeros ''0x2'' = ''0x2''"
    by simp
  ultimately show ?thesis
    using removeLeadingZeros_idem [of x] by simp
qed

text \<open>
  C10. An address that is \<^verbatim>\<open>0x\<close> followed by one or more zeros and nothing else is
  rewritten to the bare prefix \<^verbatim>\<open>0x\<close>: the result is not the input, and the zero value
  the address stood for is gone.
\<close>

theorem removeLeadingZeros_all_zero:
  "0 < n \<Longrightarrow>
   removeLeadingZeros (''0x'' @ replicate n CHR ''0'') = ''0x''
   \<and> removeLeadingZeros (''0x'' @ replicate n CHR ''0'') \<noteq> ''0x'' @ replicate n CHR ''0''"
proof -
  assume "0 < n"
  then obtain m where n: "n = Suc m" by (cases n) auto
  have "removeLeadingZeros (''0x'' @ replicate (Suc m) CHR ''0'') = ''0x''"
    by (simp add: dropWhile_zeros)
  then show ?thesis unfolding n by simp
qed

theorem removeLeadingZeros_all_zero_witness:
  "(0::nat) < 1 \<and> removeLeadingZeros ''0x0'' = ''0x'' \<and> removeLeadingZeros ''0x0'' \<noteq> ''0x0''"
  using removeLeadingZeros_all_zero [of 1] by simp

section \<open>Properties of \<^verbatim>\<open>testRpcLatency\<close>\<close>

lemma probe_settled: "Fulfilled (settled_result (probe tt oa c u)) = probe tt oa c u"
  by (cases "c (request_of tt oa)") (simp_all add: probe_def settled_result_def)

lemma endpoint_probe: "endpoint (settled_result (probe tt oa c u)) = u"
  by (cases "c (request_of tt oa)") (simp_all add: probe_def settled_result_def)

lemma one_outcome_probe:
  "(latency (settled_result (probe tt oa c u)) = None) \<noteq> (error (settled_result (probe tt oa c u)) = None)"
  by (cases "c (request_of tt oa)") (simp_all add: probe_def settled_result_def)

lemma testRpcLatency_eq: "testRpcLatency net args = Fulfilled (probe_all net args)"
  by (simp add: testRpcLatency_def probe_all_def allSettled_def Let_def case_prod_unfold comp_def)

lemma length_probe_all: "length (probe_all net args) = length (endpoints args)"
  by (simp add: probe_all_def)

lemma nth_probe_all:
  "i < length (endpoints args) \<Longrightarrow>
   probe_all net args ! i =
     settled_result (probe (nullish (testType args) getLatestSuiSystemState) (objectOrAddress args)
                       (net i (endpoints args ! i)) (endpoints args ! i))"
  by (simp add: probe_all_def nth_enumerate_eq)

lemma endpoint_probe_all: "map endpoint (probe_all net args) = endpoints args"
  by (rule nth_equalityI) (simp_all add: length_probe_all nth_probe_all endpoint_probe)

lemma one_outcome_probe_all:
  "r \<in> set (probe_all net args) \<Longrightarrow> (latency r = None) \<noteq> (error r = None)"
  unfolding probe_all_def using one_outcome_probe by (auto simp del: not_None_eq)


lemma list2_eqI: "length xs = 2 \<Longrightarrow> xs ! 0 = a \<Longrightarrow> xs ! 1 = b \<Longrightarrow> xs = [a, b]"
  by (cases xs; cases "tl xs") auto


text \<open>
  C9. The results come in the order of the input: the endpoint of the i-th result is the
  i-th endpoint of the list. The function reorders nothing.
\<close>

theorem testRpcLatency_keeps_input_order:
  "\<exists>rs. testRpcLatency net args = Fulfilled rs \<and> map endpoint rs = endpoints args"
  using endpoint_probe_all [of net args] by (simp add: testRpcLatency_eq)

text \<open>
  C3. There is exactly one result for each endpoint of the list: the result list is as long
  as the endpoint list, the result at each position is that of the probe made for that
  position (a url that occurs twice is probed twice, each occurrence by its own client),
  and the empty list gives the empty result without failing.
\<close>

theorem testRpcLatency_one_result_per_endpoint:
  "\<exists>rs. testRpcLatency net args = Fulfilled rs
     \<and> length rs = length (endpoints args)
     \<and> (\<forall>i<length (endpoints args).
          Fulfilled (rs ! i) =
            probe (nullish (testType args) getLatestSuiSystemState) (objectOrAddress args)
              (net i (endpoints args ! i)) (endpoints args ! i))
     \<and> (endpoints args = [] \<longrightarrow> rs = [])"
proof (intro exI conjI allI impI)
  show "testRpcLatency net args = Fulfilled (probe_all net args)"
    by (rule testRpcLatency_eq)
  show "length (probe_all net args) = length (endpoints args)"
    by (rule length_probe_all)
  show "Fulfilled (probe_all net args ! i) =
          probe (nullish (testType args) getLatestSuiSystemState) (objectOrAddress args)
            (net i (endpoints args ! i)) (endpoints args ! i)"
    if "i < length (endpoints args)" for i
    using that by (simp add: nth_probe_all probe_settled)
  show "probe_all net args = []" if "endpoints args = []"
    using that by (simp add: probe_all_def)
qed

theorem testRpcLatency_one_result_per_endpoint_witness:
  "endpoints args_dup = [''A'', ''A'']
   \<and> testRpcLatency net_dup args_dup =
       Fulfilled [\<lparr>endpoint = ''A'', latency = Some 7, error = None\<rparr>,
                  \<lparr>endpoint = ''A'', latency = None, error = Some ''Error: timeout''\<rparr>]
   \<and> testRpcLatency net_dup (args_dup\<lparr>endpoints := []\<rparr>) = Fulfilled []"
proof -
  obtain rs where rs: "testRpcLatency net_dup args_dup = Fulfilled rs"
      "length rs = length (endpoints args_dup)"
      "\<forall>i<length (endpoints args_dup).
          Fulfilled (rs ! i) =
            probe (nullish (testType args_dup) getLatestSuiSystemState) (objectOrAddress args_dup)
              (net_dup i (endpoints args_dup ! i)) (endpoints args_dup ! i)"
    using testRpcLatency_one_result_per_endpoint [of net_dup args_dup] by blast
  have len: "length rs = 2"
    using rs(2) by (simp add: args_dup_def)
  have "Fulfilled (rs ! 0) = Fulfilled \<lparr>endpoint = ''A'', latency = Some 7, error = None\<rparr>"
    using rs(3) by (simp add: args_dup_def net_dup_def probe_def nullish_def)
  then have r0: "rs ! 0 = \<lparr>endpoint = ''A'', latency = Some 7, error = None\<rparr>"
    by simp
  have "Fulfilled (rs ! 1)
          = Fulfilled \<lparr>endpoint = ''A'', latency = None, error = Some ''Error: timeout''\<rparr>"
    using rs(3) by (simp add: args_dup_def net_dup_def probe_def nullish_def String_js_def)
  then have r1: "rs ! 1 = \<lparr>endpoint = ''A'', latency = None, error = Some ''Error: timeout''\<rparr>"
    by simp
  obtain rs0 where rs0: "testRpcLatency net_dup (args_dup\<lparr>endpoints := []\<rparr>) = Fulfilled rs0"
      "endpoints (args_dup\<lparr>endpoints := []\<rparr>) = [] \<longrightarrow> rs0 = []"
    using testRpcLatency_one_result_per_endpoint [of net_dup "args_dup\<lparr>endpoints := []\<rparr>"] by blast
  then have "testRpcLatency net_dup (args_dup\<lparr>endpoints := []\<rparr>) = Fulfilled []"
    by simp
  then show ?thesis
    using rs(1) list2_eqI [OF len r0 r1] by (simp add: args_dup_def)
qed




subsection \<open>Ordering of the results\<close>

text \<open>
  C1, as the specification states it, fails: for A (50 ms), B (error), C (10 ms) the function
  returns the results in the order A, B, C, which is not ascending by latency.
\<close>

theorem testRpcLatency_unsorted_counterexample:
  "testRpcLatency net_abc args_abc =
     Fulfilled [\<lparr>endpoint = ''A'', latency = Some 50, error = None\<rparr>,
                \<lparr>endpoint = ''B'', latency = None, error = Some ''TypeError: fetch failed''\<rparr>,
                \<lparr>endpoint = ''C'', latency = Some 10, error = None\<rparr>]
   \<and> \<not> sorted_by_latency
          [\<lparr>endpoint = ''A'', latency = Some 50, error = None\<rparr>,
           \<lparr>endpoint = ''B'', latency = None, error = Some ''TypeError: fetch failed''\<rparr>,
           \<lparr>endpoint = ''C'', latency = Some 10, error = None\<rparr>]
   \<and> testRpcLatency net_abc args_abc \<noteq>
       Fulfilled [\<lparr>endpoint = ''C'', latency = Some 10, error = None\<rparr>,
                  \<lparr>endpoint = ''A'', latency = Some 50, error = None\<rparr>,
                  \<lparr>endpoint = ''B'', latency = None, error = Some ''TypeError: fetch failed''\<rparr>]"
proof -
  have run: "testRpcLatency net_abc args_abc =
     Fulfilled [\<lparr>endpoint = ''A'', latency = Some 50, error = None\<rparr>,
                \<lparr>endpoint = ''B'', latency = None, error = Some ''TypeError: fetch failed''\<rparr>,
                \<lparr>endpoint = ''C'', latency = Some 10, error = None\<rparr>]"
    by (simp add: testRpcLatency_eq probe_all_def args_abc_def net_abc_def probe_def
          settled_result_def nullish_def String_js_def enumerate_eq_zip upt_rec)
  have "\<not> latency_ascending
          [\<lparr>endpoint = ''A'', latency = Some 50, error = None\<rparr>,
           \<lparr>endpoint = ''B'', latency = None, error = Some ''TypeError: fetch failed''\<rparr>,
           \<lparr>endpoint = ''C'', latency = Some 10, error = None\<rparr>]"
    by (simp add: latency_ascending_def List.map_filter_simps)
  then show ?thesis
    unfolding run by (simp add: sorted_by_latency_def)
qed

lemma insert_sorted_compareLatency:
  "insert_sorted compareLatency x ys = insort_key latency_key x ys"
  by (induction ys) (simp_all add: compareLatency_def latency_key_def)

lemma js_sort_compareLatency: "js_sort compareLatency xs = sort_key latency_key xs"
proof -
  have "insert_sorted compareLatency = insort_key latency_key"
    by (intro ext) (rule insert_sorted_compareLatency)
  then show ?thesis
    by (simp add: js_sort_def sort_key_def)
qed

lemma latency_ascending_sorted_key:
  "sorted (map latency_key xs) \<Longrightarrow> latency_ascending xs"
proof (induction xs)
  case Nil
  then show ?case by (simp add: latency_ascending_def List.map_filter_simps)
next
  case (Cons x xs)
  then have ih: "sorted (List.map_filter latency xs)"
    by (simp add: latency_ascending_def)
  show ?case
  proof (cases "latency x")
    case None
    with ih show ?thesis by (simp add: latency_ascending_def List.map_filter_simps)
  next
    case (Some l)
    have "l \<le> m" if "m \<in> set (List.map_filter latency xs)" for m
    proof -
      from that obtain y where y: "y \<in> set xs" "latency y = Some m"
        by (auto simp: List.map_filter_def)
      then have "latency_key x \<le> latency_key y"
        using Cons.prems by auto
      with Some y show ?thesis by (simp add: latency_key_def nullish_def)
    qed
    with ih Some show ?thesis
      by (auto simp: latency_ascending_def List.map_filter_simps)
  qed
qed

lemma failures_last_sorted_key:
  assumes "sorted (map latency_key xs)"
    and "\<forall>r\<in>set xs. (latency r = None) \<noteq> (error r = None)"
    and "\<forall>r\<in>set xs. \<forall>l. latency r = Some l \<longrightarrow> l < 99999"
  shows "failures_last xs"
  using assms
proof (induction xs)
  case Nil
  then show ?case by simp
next
  case (Cons x xs)
  show ?case
  proof (cases "is_Failure x")
    case True
    then have kx: "latency_key x = 99999"
      using Cons.prems(2) by (auto simp: is_Failure_def latency_key_def nullish_def)
    have "\<not> is_Latency s" if "s \<in> set xs" for s
    proof
      assume "is_Latency s"
      then obtain l where l: "latency s = Some l" by (auto simp: is_Latency_def)
      then have "l < 99999" using Cons.prems(3) that by auto
      moreover have "latency_key x \<le> latency_key s" using Cons.prems(1) that by auto
      ultimately show False using kx l by (simp add: latency_key_def nullish_def)
    qed
    with True show ?thesis by (simp add: list_all_iff)
  next
    case False
    with Cons show ?thesis by simp
  qed
qed

text \<open>
  C1, amended. \<^verbatim>\<open>testRpcLatency\<close> returns the results in input order, and its caller
  \<^verbatim>\<open>runTest\<close> sorts them by \<^verbatim>\<open>latency ?? 99999\<close>: the sequence \<^verbatim>\<open>runTest\<close> stores is a
  reordering of the returned one, ascending by latency among the Latency results, and,
  when every latency is below 99999 ms, every Failure comes after every Latency result.
\<close>

theorem runTest_sorts_by_latency:
  "\<exists>rs. testRpcLatency net
            \<lparr>endpoints = map url (filter enabled rpcs), testType = None, objectOrAddress = None\<rparr>
          = Fulfilled rs
     \<and> map endpoint rs = map url (filter enabled rpcs)
     \<and> runTest net rpcs = Fulfilled (js_sort compareLatency rs)
     \<and> mset (js_sort compareLatency rs) = mset rs
     \<and> latency_ascending (js_sort compareLatency rs)
     \<and> ((\<forall>r\<in>set rs. \<forall>l. latency r = Some l \<longrightarrow> l < 99999)
          \<longrightarrow> sorted_by_latency (js_sort compareLatency rs))"
proof -
  let ?args = "\<lparr>endpoints = map url (filter enabled rpcs), testType = None, objectOrAddress = None\<rparr>"
  let ?rs = "probe_all net ?args"
  have run: "testRpcLatency net ?args = Fulfilled ?rs"
    by (rule testRpcLatency_eq)
  have order: "map endpoint ?rs = map url (filter enabled rpcs)"
    using endpoint_probe_all [of net ?args] by simp
  have sorts: "runTest net rpcs = Fulfilled (js_sort compareLatency ?rs)"
    by (simp add: runTest_def run)
  have perm: "mset (js_sort compareLatency ?rs) = mset ?rs"
    by (simp add: js_sort_compareLatency)
  have keys: "sorted (map latency_key (js_sort compareLatency ?rs))"
    by (simp add: js_sort_compareLatency)
  have asc: "latency_ascending (js_sort compareLatency ?rs)"
    using keys by (rule latency_ascending_sorted_key)
  have last: "sorted_by_latency (js_sort compareLatency ?rs)"
    if below: "\<forall>r\<in>set ?rs. \<forall>l. latency r = Some l \<longrightarrow> l < 99999"
  proof -
    have same: "set (js_sort compareLatency ?rs) = set ?rs"
      by (simp add: js_sort_compareLatency)
    have "failures_last (js_sort compareLatency ?rs)"
    proof (rule failures_last_sorted_key [OF keys])
      show "\<forall>r\<in>set (js_sort compareLatency ?rs). (latency r = None) \<noteq> (error r = None)"
        unfolding same by (intro ballI) (rule one_outcome_probe_all)
      show "\<forall>r\<in>set (js_sort compareLatency ?rs). \<forall>l. latency r = Some l \<longrightarrow> l < 99999"
        unfolding same by (rule below)
    qed
    with asc show ?thesis by (simp add: sorted_by_latency_def)
  qed
  from run order sorts perm asc last show ?thesis by blast
qed

theorem runTest_sorts_by_latency_witness:
  "runTest net_abc rpcs_abc =
     Fulfilled [\<lparr>endpoint = ''C'', latency = Some 10, error = None\<rparr>,
                \<lparr>endpoint = ''A'', latency = Some 50, error = None\<rparr>,
                \<lparr>endpoint = ''B'', latency = None, error = Some ''TypeError: fetch failed''\<rparr>]
   \<and> sorted_by_latency
        [\<lparr>endpoint = ''C'', latency = Some 10, error = None\<rparr>,
         \<lparr>endpoint = ''A'', latency = Some 50, error = None\<rparr>,
         \<lparr>endpoint = ''B'', latency = None, error = Some ''TypeError: fetch failed''\<rparr>]"
proof -
  let ?args = "\<lparr>endpoints = map url (filter enabled rpcs_abc), testType = None, objectOrAddress = None\<rparr>"
  let ?in = "[\<lparr>endpoint = ''A'', latency = Some 50, error = None\<rparr>,
              \<lparr>endpoint = ''B'', latency = None, error = Some ''TypeError: fetch failed''\<rparr>,
              \<lparr>endpoint = ''C'', latency = Some 10, error = None\<rparr>]"
  have run: "testRpcLatency net_abc ?args = Fulfilled ?in"
    by (simp add: testRpcLatency_eq probe_all_def rpcs_abc_def net_abc_def probe_def
          settled_result_def nullish_def String_js_def enumerate_eq_zip upt_rec)
  have below: "\<forall>r\<in>set ?in. \<forall>l. latency r = Some l \<longrightarrow> l < 99999"
    by simp
  have sort: "js_sort compareLatency ?in =
     [\<lparr>endpoint = ''C'', latency = Some 10, error = None\<rparr>,
      \<lparr>endpoint = ''A'', latency = Some 50, error = None\<rparr>,
      \<lparr>endpoint = ''B'', latency = None, error = Some ''TypeError: fetch failed''\<rparr>]"
    by (simp add: js_sort_def compareLatency_def nullish_def)
  from runTest_sorts_by_latency [of net_abc rpcs_abc]
  have "runTest net_abc rpcs_abc = Fulfilled (js_sort compareLatency ?in)
        \<and> sorted_by_latency (js_sort compareLatency ?in)"
    unfolding run using below by auto
  then show ?thesis unfolding sort .
qed

section \<open>Properties of \<^verbatim>\<open>getCoinOfValue\<close>\<close>

lemma getCoinOfValue_gas_eq:
  "removeLeadingZeros coinType = ''0x2::sui::SUI'' \<Longrightarrow>
   getCoinOfValue suiClient calls ownerAddress coinType coinValue =
     (Fulfilled (SplitCoinsResult GasCoin [PureInput coinValue]),
      calls @ [Txb_pure coinValue, Txb_splitCoins GasCoin [PureInput coinValue]])"
  by (simp add: getCoinOfValue_def txb_pure_def txb_splitCoins_def)

lemma getCoinOfValue_failed_eq:
  "removeLeadingZeros coinType \<noteq> ''0x2::sui::SUI'' \<Longrightarrow>
   suiClient ownerAddress (removeLeadingZeros coinType) None = Inl err \<Longrightarrow>
   getCoinOfValue suiClient calls ownerAddress coinType coinValue =
     (Rejected err, calls @ [Client_getCoins ownerAddress (removeLeadingZeros coinType) None])"
  by (simp add: getCoinOfValue_def client_getCoins_def)

lemma getCoinOfValue_empty_eq:
  "removeLeadingZeros coinType \<noteq> ''0x2::sui::SUI'' \<Longrightarrow>
   suiClient ownerAddress (removeLeadingZeros coinType) None = Inr paginatedCoins \<Longrightarrow>
   data paginatedCoins = [] \<Longrightarrow>
   getCoinOfValue suiClient calls ownerAddress coinType coinValue =
     (Rejected (JsError ''TypeError'' ''Cannot read properties of undefined''),
      calls @ [Client_getCoins ownerAddress (removeLeadingZeros coinType) None])"
  by (simp add: getCoinOfValue_def client_getCoins_def)

lemma getCoinOfValue_coins_eq:
  "removeLeadingZeros coinType \<noteq> ''0x2::sui::SUI'' \<Longrightarrow>
   suiClient ownerAddress (removeLeadingZeros coinType) None = Inr paginatedCoins \<Longrightarrow>
   data paginatedCoins = firstCoin # otherCoins \<Longrightarrow>
   getCoinOfValue suiClient calls ownerAddress coinType coinValue =
     (Fulfilled (SplitCoinsResult (ObjectInput (coinObjectId firstCoin)) [PureInput coinValue]),
      calls @ [Client_getCoins ownerAddress (removeLeadingZeros coinType) None,
               Txb_object (coinObjectId firstCoin)]
        @ (if otherCoins = [] then []
           else [Txb_mergeCoins (ObjectInput (coinObjectId firstCoin)) (map coinObjectId otherCoins)])
        @ [Txb_pure coinValue,
           Txb_splitCoins (ObjectInput (coinObjectId firstCoin)) [PureInput coinValue]])"
  by (simp add: getCoinOfValue_def client_getCoins_def txb_object_def txb_mergeCoins_def
        txb_pure_def txb_splitCoins_def)

text \<open>
  C4. When the normalized coin type is \<^verbatim>\<open>0x2::sui::SUI\<close>, the result is the split of the
  value from the gas coin of the transaction, the only calls made are \<^verbatim>\<open>txb.pure\<close> and
  \<^verbatim>\<open>txb.splitCoins\<close>, and \<^verbatim>\<open>getCoins\<close> is not called.
\<close>

theorem getCoinOfValue_gas_no_lookup:
  assumes "removeLeadingZeros coinType = ''0x2::sui::SUI''"
  shows "getCoinOfValue suiClient calls ownerAddress coinType coinValue =
           (Fulfilled (SplitCoinsResult GasCoin [PureInput coinValue]),
            calls @ [Txb_pure coinValue, Txb_splitCoins GasCoin [PureInput coinValue]])
         \<and> filter is_getCoins (snd (getCoinOfValue suiClient calls ownerAddress coinType coinValue))
             = filter is_getCoins calls"
  using getCoinOfValue_gas_eq [OF assms] by simp

theorem getCoinOfValue_gas_no_lookup_witness:
  "removeLeadingZeros ''0x0000000000000000000000000000000000000000000000000000000000000002::sui::SUI''
     = ''0x2::sui::SUI''
   \<and> getCoinOfValue stub_no_getCoins [] ''0xowner''
        ''0x0000000000000000000000000000000000000000000000000000000000000002::sui::SUI'' 1000
      = (Fulfilled (SplitCoinsResult GasCoin [PureInput 1000]),
         [Txb_pure 1000, Txb_splitCoins GasCoin [PureInput 1000]])"
proof -
  have n: "removeLeadingZeros
             ''0x0000000000000000000000000000000000000000000000000000000000000002::sui::SUI''
           = ''0x2::sui::SUI''"
    by simp
  show ?thesis
    using n getCoinOfValue_gas_no_lookup [OF n, of stub_no_getCoins "[]" "''0xowner''" 1000]
    by simp
qed

text \<open>
  C5. For another coin type, when \<^verbatim>\<open>getCoins\<close> returns at least one coin, the first coin
  is the merge target. With no other coin there is no merge call; with other coins there is
  exactly one merge call, of all of them into the first. One split of the value from the
  first coin follows, and is the result.
\<close>

theorem getCoinOfValue_merges_into_first:
  assumes "removeLeadingZeros coinType \<noteq> ''0x2::sui::SUI''"
    and "suiClient ownerAddress (removeLeadingZeros coinType) None = Inr paginatedCoins"
    and "data paginatedCoins = firstCoin # otherCoins"
  shows "getCoinOfValue suiClient calls ownerAddress coinType coinValue =
     (Fulfilled (SplitCoinsResult (ObjectInput (coinObjectId firstCoin)) [PureInput coinValue]),
      calls @ [Client_getCoins ownerAddress (removeLeadingZeros coinType) None,
               Txb_object (coinObjectId firstCoin)]
        @ (if otherCoins = [] then []
           else [Txb_mergeCoins (ObjectInput (coinObjectId firstCoin)) (map coinObjectId otherCoins)])
        @ [Txb_pure coinValue,
           Txb_splitCoins (ObjectInput (coinObjectId firstCoin)) [PureInput coinValue]])"
  using assms by (rule getCoinOfValue_coins_eq)

theorem getCoinOfValue_merges_into_first_witness:
  "removeLeadingZeros ''0x02::usdc::USDC'' \<noteq> ''0x2::sui::SUI''
   \<and> getCoinOfValue coins_two_pages [] ''0xowner'' ''0x02::usdc::USDC'' 9
      = (Fulfilled (SplitCoinsResult (ObjectInput ''0xa1'') [PureInput 9]),
         [Client_getCoins ''0xowner'' ''0x2::usdc::USDC'' None,
          Txb_object ''0xa1'',
          Txb_mergeCoins (ObjectInput ''0xa1'') [''0xa2'', ''0xa3''],
          Txb_pure 9,
          Txb_splitCoins (ObjectInput ''0xa1'') [PureInput 9]])
   \<and> getCoinOfValue coins_single [] ''0xowner'' ''0x02::usdc::USDC'' 9
      = (Fulfilled (SplitCoinsResult (ObjectInput ''0xa1'') [PureInput 9]),
         [Client_getCoins ''0xowner'' ''0x2::usdc::USDC'' None,
          Txb_object ''0xa1'',
          Txb_pure 9,
          Txb_splitCoins (ObjectInput ''0xa1'') [PureInput 9]])"
proof -
  have n: "removeLeadingZeros ''0x02::usdc::USDC'' \<noteq> ''0x2::sui::SUI''"
    by simp
  have n': "removeLeadingZeros ''0x02::usdc::USDC'' = ''0x2::usdc::USDC''"
    by simp
  have many: "coins_two_pages ''0xowner'' (removeLeadingZeros ''0x02::usdc::USDC'') None
      = Inr \<lparr>data = [\<lparr>coinObjectId = ''0xa1'', balance = 5\<rparr>, \<lparr>coinObjectId = ''0xa2'', balance = 7\<rparr>,
                     \<lparr>coinObjectId = ''0xa3'', balance = 1\<rparr>],
             nextCursor = Some ''0xa3'', hasNextPage = True\<rparr>"
    by (simp add: coins_two_pages_def)
  have one: "coins_single ''0xowner'' (removeLeadingZeros ''0x02::usdc::USDC'') None
      = Inr \<lparr>data = [\<lparr>coinObjectId = ''0xa1'', balance = 5\<rparr>], nextCursor = None, hasNextPage = False\<rparr>"
    by (simp add: coins_single_def)
  show ?thesis
    using n
      getCoinOfValue_merges_into_first [where suiClient = coins_two_pages
        and ownerAddress = "''0xowner''" and calls = "[]" and coinValue = 9, OF n many]
      getCoinOfValue_merges_into_first [where suiClient = coins_single
        and ownerAddress = "''0xowner''" and calls = "[]" and coinValue = 9, OF n one]
    by (simp add: n')
qed

text \<open>
  C7. For a coin type other than the gas coin, \<^verbatim>\<open>getCoinOfValue\<close> calls \<^verbatim>\<open>getCoins\<close>
  exactly once, with no cursor, whatever the page reports about further pages; the only
  coins the transaction names are those of that first page.
\<close>

theorem getCoinOfValue_single_request:
  assumes "removeLeadingZeros coinType \<noteq> ''0x2::sui::SUI''"
  shows "\<exists>new. snd (getCoinOfValue suiClient calls ownerAddress coinType coinValue) = calls @ new
           \<and> filter is_getCoins new
               = [Client_getCoins ownerAddress (removeLeadingZeros coinType) None]
           \<and> (\<forall>p. suiClient ownerAddress (removeLeadingZeros coinType) None = Inr p
                 \<longrightarrow> concat (map object_ids new) = map coinObjectId (data p))"
proof (cases "suiClient ownerAddress (removeLeadingZeros coinType) None")
  case (Inl err)
  show ?thesis
    using getCoinOfValue_failed_eq [where suiClient = suiClient and ownerAddress = ownerAddress,
        OF assms Inl, of calls coinValue] Inl by simp
next
  case (Inr p)
  show ?thesis
  proof (cases "data p")
    case Nil
    show ?thesis
      using getCoinOfValue_empty_eq [where suiClient = suiClient and ownerAddress = ownerAddress,
          OF assms Inr Nil, of calls coinValue] Inr Nil by simp
  next
    case (Cons firstCoin otherCoins)
    show ?thesis
      using getCoinOfValue_coins_eq [where suiClient = suiClient and ownerAddress = ownerAddress,
          OF assms Inr Cons, of calls coinValue] Inr Cons by simp
  qed
qed

theorem getCoinOfValue_single_request_witness:
  "removeLeadingZeros ''0x02::usdc::USDC'' \<noteq> ''0x2::sui::SUI''
   \<and> hasNextPage \<lparr>data = [\<lparr>coinObjectId = ''0xa1'', balance = 5\<rparr>, \<lparr>coinObjectId = ''0xa2'', balance = 7\<rparr>,
                     \<lparr>coinObjectId = ''0xa3'', balance = 1\<rparr>],
             nextCursor = Some ''0xa3'', hasNextPage = True\<rparr>
   \<and> (\<exists>new. snd (getCoinOfValue coins_two_pages [] ''0xowner'' ''0x02::usdc::USDC'' 9) = new
         \<and> filter is_getCoins new = [Client_getCoins ''0xowner'' ''0x2::usdc::USDC'' None]
         \<and> concat (map object_ids new) = [''0xa1'', ''0xa2'', ''0xa3''])"
proof -
  have n: "removeLeadingZeros ''0x02::usdc::USDC'' \<noteq> ''0x2::sui::SUI''"
    by simp
  have n': "removeLeadingZeros ''0x02::usdc::USDC'' = ''0x2::usdc::USDC''"
    by simp
  have many: "coins_two_pages ''0xowner'' (removeLeadingZeros ''0x02::usdc::USDC'') None
      = Inr \<lparr>data = [\<lparr>coinObjectId = ''0xa1'', balance = 5\<rparr>, \<lparr>coinObjectId = ''0xa2'', balance = 7\<rparr>,
                     \<lparr>coinObjectId = ''0xa3'', balance = 1\<rparr>],
             nextCursor = Some ''0xa3'', hasNextPage = True\<rparr>"
    by (simp add: coins_two_pages_def)
  show ?thesis
    using n getCoinOfValue_single_request [OF n, of coins_two_pages "[]" "''0xowner''" 9] many
    by (auto simp: n')
qed

section \<open>Properties of \<^verbatim>\<open>fetchAllDynamicFields\<close>\<close>

lemma fetch_loop_serves:
  "serves suiClient parentId cur ps \<Longrightarrow>
   fetch_loop suiClient parentId acc True cur requested =
     Some (Fulfilled (acc @ concat (map data ps)), requested @ cur # map nextCursor (butlast ps))"
proof (induction suiClient parentId cur ps arbitrary: acc requested rule: serves.induct)
  case (1 suiClient parentId cur)
  then show ?case by simp
next
  case (2 suiClient parentId cur p)
  then show ?case
    by (subst fetch_loop.simps, subst fetch_loop.simps) simp
next
  case (3 suiClient parentId cur p q ps)
  then have "fetch_loop suiClient parentId (acc @ data p) True (nextCursor p) (requested @ [cur])
      = Some (Fulfilled ((acc @ data p) @ concat (map data (q # ps))),
              (requested @ [cur]) @ nextCursor p # map nextCursor (butlast (q # ps)))"
    by simp
  with 3(2) show ?case
    by (subst fetch_loop.simps) simp
qed

text \<open>
  C6. When the server holds the pages \<open>ps\<close> of the parent, \<^verbatim>\<open>fetchAllDynamicFields\<close>
  returns, fulfilled with the items of all pages in page order; it makes one request for
  each page, the first with no cursor and each next one with the cursor of the page before,
  and none after the page that reports no more pages.
\<close>

theorem fetchAllDynamicFields_concatenates:
  assumes "serves suiClient parentId None ps"
  shows "fetchAllDynamicFields suiClient parentId
           = Some (Fulfilled (concat (map data ps)), cursors_of ps)
         \<and> length (cursors_of ps) = length ps"
proof -
  have "ps \<noteq> []" using assms by auto
  then have "length (cursors_of ps) = length ps"
    by (simp add: cursors_of_def)
  then show ?thesis
    using fetch_loop_serves [OF assms, of "[]" "[]"]
    by (simp add: fetchAllDynamicFields_def cursors_of_def)
qed

theorem fetchAllDynamicFields_concatenates_witness:
  "serves fields_221 ''0xparent'' None pages_221
   \<and> map (\<lambda>p. length (data p)) pages_221 = [2, 2, 1]
   \<and> fetchAllDynamicFields fields_221 ''0xparent''
       = Some (Fulfilled [1, 2, 3, 4, 5], [None, Some ''c1'', Some ''c2''])
   \<and> length [1, 2, 3, 4, 5 :: nat] = 5"
proof -
  have s: "serves fields_221 ''0xparent'' None pages_221"
    by (simp add: fields_221_def pages_221_def)
  show ?thesis
    using s fetchAllDynamicFields_concatenates [OF s]
    by (simp add: pages_221_def cursors_of_def)
qed

end
